theory Spec2Isabelle
  imports Complex_Main
begin

section \<open>MMM-Reddit node helper: data model\<close>

text \<open>
  A shallow embedding of \<^verbatim>\<open>node_helper.js\<close>. JavaScript exceptions are values of
  the type \<open>error\<close>; a function that can throw returns \<open>error + 'a\<close>. The helper
  mutates the \<^verbatim>\<open>resolutions\<close> array of a post in place, so the functions that
  touch it return the object as it is after the call next to their result.
\<close>

datatype error = TypeError | SyntaxError | FetchError

text \<open>An image variant of the feed: \<^verbatim>\<open>{url, width, height}\<close>.\<close>

record ImageVariant =
  url :: string
  width :: int
  height :: int

text \<open>
  One entry of \<^verbatim>\<open>preview.images\<close>. The field \<^verbatim>\<open>source\<close> may be missing
  (\<^verbatim>\<open>hasOwnProperty('source')\<close> is tested by the code), \<^verbatim>\<open>resolutions\<close> is an array.
\<close>

record ImageVariantSet =
  source :: "ImageVariant option"
  resolutions :: "ImageVariant list"

text \<open>The \<^verbatim>\<open>preview\<close> object of a post; its \<^verbatim>\<open>images\<close> property may be missing.\<close>

record PreviewData =
  images :: "ImageVariantSet list option"

text \<open>
  A child of \<^verbatim>\<open>body.data.children\<close> (its \<^verbatim>\<open>data\<close> object). The thumbnail is
  \<open>None\<close> when the property is not a string (\<^verbatim>\<open>undefined\<close> or \<^verbatim>\<open>null\<close>), the
  preview is \<open>None\<close> when it is \<^verbatim>\<open>undefined\<close>.
\<close>

record RawPost =
  title :: string
  score :: int
  thumbnail :: "string option"
  preview :: "PreviewData option"
  gilded :: int
  num_comments :: int
  subreddit :: string
  author :: string

text \<open>An entry of \<^verbatim>\<open>config.titleReplacements\<close>; \<^verbatim>\<open>caseSensitive\<close> may be unset.\<close>

record TitleRule =
  toReplace :: string
  replacement :: string
  caseSensitive :: "bool option"

text \<open>
  The part of \<^verbatim>\<open>this.config\<close> that the helper reads after the request is made.
  \<^verbatim>\<open>characterLimit\<close> is \<open>None\<close> for \<^verbatim>\<open>null\<close>.
\<close>

record Config =
  displayType :: string
  imageQuality :: string
  titleReplacements :: "TitleRule list"
  characterLimit :: "int option"

text \<open>The object built for every surviving post in \<^verbatim>\<open>getData\<close>.\<close>

datatype OutputPost = OutputPost
  (out_title: string) (out_score: int) (out_thumbnail: "string option")
  (out_src: "string option") (out_gilded: int) (out_num_comments: int)
  (out_subreddit: string) (out_author: string)

section \<open>JavaScript built-ins used by the helper\<close>

text \<open>\<^verbatim>\<open>Array.prototype.indexOf\<close>: the first position of an element, or \<open>-1\<close>.\<close>

fun indexOf :: "'a list \<Rightarrow> 'a \<Rightarrow> int" where
  "indexOf [] x = - 1"
| "indexOf (y # ys) x =
     (if y = x then 0
      else (let i = indexOf ys x in if i = - 1 then - 1 else i + 1))"

text \<open>\<^verbatim>\<open>String.prototype.startsWith\<close> and \<^verbatim>\<open>String.prototype.indexOf\<close>.\<close>

definition startsWith :: "string \<Rightarrow> string \<Rightarrow> bool" where
  "startsWith s p = (take (length p) s = p)"

fun strIndexOf :: "string \<Rightarrow> string \<Rightarrow> int" where
  "strIndexOf [] p = (if p = [] then 0 else - 1)"
| "strIndexOf (c # cs) p =
     (if startsWith (c # cs) p then 0
      else (let i = strIndexOf cs p in if i = - 1 then - 1 else i + 1))"

text \<open>
  \<^verbatim>\<open>Array.prototype.pop\<close> returns the removed last element (\<^verbatim>\<open>undefined\<close> on an
  empty array, here \<open>None\<close>) and the array as it is afterwards;
  \<^verbatim>\<open>Array.prototype.push\<close> appends.
\<close>

definition pop :: "'a list \<Rightarrow> 'a option \<times> 'a list" where
  "pop xs = (if xs = [] then (None, []) else (Some (last xs), butlast xs))"

definition push :: "'a list \<Rightarrow> 'a \<Rightarrow> 'a list" where
  "push xs x = xs @ [x]"

text \<open>
  Reading \<^verbatim>\<open>xs[i]\<close> for an integral number \<open>i\<close>: \<^verbatim>\<open>undefined\<close> (here \<open>None\<close>)
  outside the array.
\<close>

definition elemAt :: "'a list \<Rightarrow> int \<Rightarrow> 'a option" where
  "elemAt xs i = (if 0 \<le> i \<and> i < int (length xs) then Some (xs ! nat i) else None)"

text \<open>
  \<^verbatim>\<open>Math.floor\<close> and \<^verbatim>\<open>Math.round\<close> on exact rationals. The numbers the helper
  rounds are multiples of a quarter, which doubles represent exactly, so no rounding
  error of the floating-point product is lost here. \<^verbatim>\<open>Math.round\<close> rounds a half
  towards \<open>+\<infinity>\<close>.
\<close>

definition Math_floor :: "rat \<Rightarrow> int" where
  "Math_floor x = \<lfloor>x\<rfloor>"

definition Math_round :: "rat \<Rightarrow> int" where
  "Math_round x = \<lfloor>x + 1 / 2\<rfloor>"

text \<open>
  \<^verbatim>\<open>String.prototype.slice(0, end)\<close>: a negative end counts from the end of the
  string.
\<close>

definition slice0 :: "string \<Rightarrow> int \<Rightarrow> string" where
  "slice0 s e = (if e < 0 then take (nat (int (length s) + e)) s else take (nat e) s)"

text \<open>
  \<^verbatim>\<open>String.prototype.trim\<close>. Strings are lists of code units below 256; the white
  space among them is tab, line feed, vertical tab, form feed, carriage return, space and
  the no-break space.
\<close>

definition isWhiteSpace :: "char \<Rightarrow> bool" where
  "isWhiteSpace c = ((of_char c :: nat) \<in> {9, 10, 11, 12, 13, 32, 160})"

definition trim :: "string \<Rightarrow> string" where
  "trim s = rev (dropWhile isWhiteSpace (rev (dropWhile isWhiteSpace s)))"

text \<open>
  The regular-expression engine is not code of the helper. The helper calls
  \<^verbatim>\<open>title.replace(new RegExp(pattern, 'g' + caseFlag), replacement)\<close>; an engine is
  a function of the pattern, of whether the flag \<^verbatim>\<open>i\<close> is set, of the replacement
  and of the subject, and it fails with \<open>SyntaxError\<close> on a malformed pattern.
\<close>

type_synonym regexEngine = "string \<Rightarrow> bool \<Rightarrow> string \<Rightarrow> string \<Rightarrow> error + string"

text \<open>
  The engine on the patterns used in the examples, for ASCII strings: a pattern without
  metacharacters matches itself, under \<^verbatim>\<open>i\<close> up to the case of the letters; a
  replacement without \<^verbatim>\<open>$\<close> is inserted as it is; the flag \<^verbatim>\<open>g\<close> replaces every
  match found scanning from the left, continuing behind each match. The empty pattern
  matches before every character and at the end. Patterns with metacharacters and
  replacements with \<^verbatim>\<open>$\<close> are outside this engine: the facts about them below hold
  for every engine.
\<close>

definition canonicalize :: "char \<Rightarrow> char" where
  "canonicalize c =
     (let n = (of_char c :: nat) in if 97 \<le> n \<and> n \<le> 122 then char_of (n - 32) else c)"

definition matchesAt :: "bool \<Rightarrow> string \<Rightarrow> string \<Rightarrow> bool" where
  "matchesAt ignoreCase p s =
     (if ignoreCase then map canonicalize (take (length p) s) = map canonicalize p
      else take (length p) s = p)"

fun replaceLiteral :: "bool \<Rightarrow> string \<Rightarrow> string \<Rightarrow> string \<Rightarrow> string" where
  "replaceLiteral ignoreCase p r [] = []"
| "replaceLiteral ignoreCase p r (c # cs) =
     (if matchesAt ignoreCase p (c # cs)
      then r @ replaceLiteral ignoreCase p r (drop (length p - 1) cs)
      else c # replaceLiteral ignoreCase p r cs)"

definition literalEngine :: regexEngine where
  "literalEngine p ignoreCase r s =
     (if p = [] then Inr (r @ concat (map (\<lambda>c. c # r) s))
      else Inr (replaceLiteral ignoreCase p r s))"

section \<open>Image selection\<close>

text \<open>The list \<^verbatim>\<open>qualityIndex\<close> of image qualities in ascending order.\<close>

definition qualityIndex :: "string list" where
  "qualityIndex = [''low'', ''mid'', ''mid-high'', ''high'']"

text \<open>
  \<^verbatim>\<open>skipNonImagePost(preview, thumbnail)\<close>. \<^verbatim>\<open>thumbnail.indexOf\<close> is evaluated first
  and throws when the thumbnail is not a string; \<^verbatim>\<open>preview.images[0]\<close> is
  \<^verbatim>\<open>undefined\<close> for an empty array and reading a property of it throws. Inside the
  \<^verbatim>\<open>if\<close> the preview is there, so the case \<open>None\<close> of the inner \<open>case\<close> is never
  taken.
\<close>

definition skipNonImagePost :: "PreviewData option \<Rightarrow> string option \<Rightarrow> error + bool" where
  "skipNonImagePost pv th =
     (case th of
        None \<Rightarrow> Inl TypeError
      | Some t \<Rightarrow>
          (let previewUndefined = (pv = None);
               nonImageThumbnail = (strIndexOf t ''http'' = - 1)
           in if \<not> previewUndefined \<and> \<not> nonImageThumbnail then
                (case pv of
                   None \<Rightarrow> Inr True
                 | Some p \<Rightarrow>
                     (case images p of
                        None \<Rightarrow> Inr True
                      | Some [] \<Rightarrow> Inl TypeError
                      | Some (first # rest) \<Rightarrow>
                          (if source first \<noteq> None then Inr False else Inr True)))
              else Inr True))"

text \<open>
  \<^verbatim>\<open>getAllImages(imageObj)\<close>. \<^verbatim>\<open>imageSet\<close> is the array \<^verbatim>\<open>imageObj.resolutions\<close>
  itself, so every \<^verbatim>\<open>pop\<close> and \<^verbatim>\<open>push\<close> changes the object: the second component
  is \<^verbatim>\<open>imageObj\<close> after the call. \<^verbatim>\<open>lastImage.width\<close> throws when the array was
  empty, \<^verbatim>\<open>imageObj.source.width\<close> when there is no source.
\<close>

definition getAllImages ::
  "ImageVariantSet \<Rightarrow> (error + ImageVariant list) \<times> ImageVariantSet" where
  "getAllImages imageObj =
     (case pop (resolutions imageObj) of
        (None, imageSet) \<Rightarrow> (Inl TypeError, imageObj\<lparr>resolutions := imageSet\<rparr>)
      | (Some lastImage, imageSet) \<Rightarrow>
          (case source imageObj of
             None \<Rightarrow> (Inl TypeError, imageObj\<lparr>resolutions := imageSet\<rparr>)
           | Some src \<Rightarrow>
               (let lastIsSource =
                      (width lastImage = width src \<and> height lastImage = height src);
                    imageSet1 = push imageSet lastImage;
                    imageSet2 = (if \<not> lastIsSource then push imageSet1 src else imageSet1)
                in (Inr imageSet2, imageObj\<lparr>resolutions := imageSet2\<rparr>))))"

text \<open>
  The index computed in \<^verbatim>\<open>getImageUrl\<close> from the configured quality and the number
  of images.
\<close>

definition imageIndexOf :: "string \<Rightarrow> nat \<Rightarrow> int" where
  "imageIndexOf quality imageCount =
     (let qualityIdx = indexOf qualityIndex quality;
          qualityPercent = (of_int qualityIdx :: rat) / 4
      in if imageCount > 5 then Math_round (qualityPercent * of_nat imageCount)
         else Math_floor (qualityPercent * of_nat imageCount))"

text \<open>
  \<^verbatim>\<open>getImageUrl(preview, thumbnail)\<close>: \<open>Inr None\<close> is \<^verbatim>\<open>null\<close>. The second
  component is the preview after the call. \<^verbatim>\<open>allPostImages[imageIndex].url\<close> throws
  when the index is outside the array.
\<close>

definition getImageUrl ::
  "Config \<Rightarrow> PreviewData option \<Rightarrow> string option \<Rightarrow>
     (error + string option) \<times> PreviewData option" where
  "getImageUrl cfg pv th =
     (case skipNonImagePost pv th of
        Inl e \<Rightarrow> (Inl e, pv)
      | Inr True \<Rightarrow> (Inr None, pv)
      | Inr False \<Rightarrow>
          (case pv of
             None \<Rightarrow> (Inl TypeError, pv)
           | Some p \<Rightarrow>
               (case images p of
                  None \<Rightarrow> (Inl TypeError, pv)
                | Some [] \<Rightarrow> (Inl TypeError, pv)
                | Some (first # rest) \<Rightarrow>
                    (case getAllImages first of
                       (Inl e, first') \<Rightarrow> (Inl e, Some (p\<lparr>images := Some (first' # rest)\<rparr>))
                     | (Inr allPostImages, first') \<Rightarrow>
                         (let imageCount = length allPostImages;
                              imageIndex = imageIndexOf (imageQuality cfg) imageCount
                          in case elemAt allPostImages imageIndex of
                               None \<Rightarrow>
                                 (Inl TypeError, Some (p\<lparr>images := Some (first' # rest)\<rparr>))
                             | Some img \<Rightarrow>
                                 (Inr (Some (url img)),
                                  Some (p\<lparr>images := Some (first' # rest)\<rparr>)))))))"

section \<open>Title formatting\<close>

text \<open>
  The body of the \<^verbatim>\<open>forEach\<close> callback of \<^verbatim>\<open>formatTitle\<close>: one rule applied to the
  current title.
\<close>

definition applyModifier :: "regexEngine \<Rightarrow> TitleRule \<Rightarrow> string \<Rightarrow> error + string" where
  "applyModifier engine modifier t =
     (let caseSens = (case caseSensitive modifier of None \<Rightarrow> True | Some b \<Rightarrow> b)
      in engine (toReplace modifier) (\<not> caseSens) (replacement modifier) t)"

text \<open>The \<^verbatim>\<open>forEach\<close> loop: it stops at the first rule that throws.\<close>

fun applyReplacements :: "regexEngine \<Rightarrow> TitleRule list \<Rightarrow> string \<Rightarrow> error + string" where
  "applyReplacements engine [] t = Inr t"
| "applyReplacements engine (modifier # ms) t =
     (case applyModifier engine modifier t of
        Inl e \<Rightarrow> Inl e
      | Inr t' \<Rightarrow> applyReplacements engine ms t')"

text \<open>
  \<^verbatim>\<open>formatTitle(title)\<close>. \<^verbatim>\<open>originalLength\<close> is read before the rules are applied.
\<close>

definition formatTitle :: "regexEngine \<Rightarrow> Config \<Rightarrow> string \<Rightarrow> error + string" where
  "formatTitle engine cfg t0 =
     (let originalLength = length t0
      in case applyReplacements engine (titleReplacements cfg) t0 of
           Inl e \<Rightarrow> Inl e
         | Inr t1 \<Rightarrow>
             (case characterLimit cfg of
                None \<Rightarrow> Inr t1
              | Some limit \<Rightarrow>
                  (let t2 = trim (slice0 t1 limit)
                   in if length t2 \<noteq> originalLength then Inr (t2 @ ''...'') else Inr t2)))"

section \<open>The fetch cycle\<close>

text \<open>
  What \<^verbatim>\<open>fetch\<close> and \<^verbatim>\<open>response.json()\<close> deliver. \<open>children\<close> is \<open>None\<close> when
  \<^verbatim>\<open>body?.data?.children\<close> is missing (or another falsy value); an empty array is
  truthy.
\<close>

record BodyData =
  children :: "RawPost list option"

record Body =
  data :: "BodyData option"

datatype decoded = JsonRejected | Json "Body option"

record response =
  ok :: bool
  status :: nat
  statusText :: string
  json :: decoded

datatype fetched = FetchRejected | Response response

text \<open>What the helper emits: console lines and socket notifications.\<close>

datatype payload = Posts "OutputPost list" | Message string

datatype effect =
    ConsoleLog string
  | ConsoleError string
  | ConsoleErrorWith string error
  | SocketNotification string payload

text \<open>The decimal digits of a number, as a template literal prints it.\<close>

fun showNat :: "nat \<Rightarrow> string" where
  "showNat n =
     (if n < 10 then [char_of (48 + n)]
      else showNat (n div 10) @ [char_of (48 + n mod 10)])"

definition sendError :: "string \<Rightarrow> effect list" where
  "sendError err = [ConsoleLog err, SocketNotification ''REDDIT_POSTS_ERROR'' (Message err)]"

definition sendData :: "OutputPost list \<Rightarrow> effect list" where
  "sendData posts = [SocketNotification ''REDDIT_POSTS'' (Posts posts)]"

text \<open>
  The callback of \<^verbatim>\<open>filter\<close> in \<^verbatim>\<open>getData\<close>: its verdict and the post after the
  call (\<^verbatim>\<open>getImageUrl\<close> is called for every post, whatever the display type).
\<close>

definition keepPost :: "Config \<Rightarrow> RawPost \<Rightarrow> error + (bool \<times> RawPost)" where
  "keepPost cfg post =
     (let th = thumbnail post;
          hasValidThumbnail = (case th of None \<Rightarrow> False | Some t \<Rightarrow> startsWith t ''http'')
      in case getImageUrl cfg (preview post) th of
           (Inl e, pv') \<Rightarrow> Inl e
         | (Inr imageSrc, pv') \<Rightarrow>
             (let isImageValid = (displayType cfg \<noteq> ''image'' \<or> imageSrc \<noteq> None)
              in Inr (hasValidThumbnail \<and> isImageValid, post\<lparr>preview := pv'\<rparr>)))"

text \<open>\<^verbatim>\<open>children.filter(...)\<close>: the surviving posts, as the calls left them.\<close>

fun filterPosts :: "Config \<Rightarrow> RawPost list \<Rightarrow> error + RawPost list" where
  "filterPosts cfg [] = Inr []"
| "filterPosts cfg (post # posts) =
     (case keepPost cfg post of
        Inl e \<Rightarrow> Inl e
      | Inr (keep, post') \<Rightarrow>
          (case filterPosts cfg posts of
             Inl e \<Rightarrow> Inl e
           | Inr kept \<Rightarrow> Inr (if keep then post' # kept else kept)))"

text \<open>The callback of \<^verbatim>\<open>map\<close>: the title is formatted first, then the image is chosen.\<close>

definition toOutput :: "regexEngine \<Rightarrow> Config \<Rightarrow> RawPost \<Rightarrow> error + OutputPost" where
  "toOutput engine cfg post =
     (case formatTitle engine cfg (title post) of
        Inl e \<Rightarrow> Inl e
      | Inr t \<Rightarrow>
          (case getImageUrl cfg (preview post) (thumbnail post) of
             (Inl e, pv') \<Rightarrow> Inl e
           | (Inr imageSrc, pv') \<Rightarrow>
               Inr (OutputPost t (score post) (thumbnail post) imageSrc (gilded post)
                      (num_comments post) (subreddit post) (author post))))"

fun mapPosts :: "regexEngine \<Rightarrow> Config \<Rightarrow> RawPost list \<Rightarrow> error + OutputPost list" where
  "mapPosts engine cfg [] = Inr []"
| "mapPosts engine cfg (post # posts) =
     (case toOutput engine cfg post of
        Inl e \<Rightarrow> Inl e
      | Inr out \<Rightarrow>
          (case mapPosts engine cfg posts of
             Inl e \<Rightarrow> Inl e
           | Inr outs \<Rightarrow> Inr (out # outs)))"

definition caught :: "error \<Rightarrow> effect list" where
  "caught e =
     ConsoleErrorWith ''Reddit fetch failed:'' e
       # sendError ''An error occurred while fetching Reddit data.''"

definition noPostsMessage :: string where
  "noPostsMessage =
     ''No posts returned. Ensure the subreddit name is spelled correctly. Private subreddits are also inaccessible.''"

text \<open>
  \<^verbatim>\<open>getData()\<close>, from the settled \<^verbatim>\<open>fetch\<close> on: everything the cycle emits. The
  URL of the request (\<^verbatim>\<open>getUrl\<close>, \<^verbatim>\<open>formatSubreddit\<close>) only decides what
  \<^verbatim>\<open>fetch\<close> delivers, which is the argument here.
\<close>

definition getData :: "regexEngine \<Rightarrow> Config \<Rightarrow> fetched \<Rightarrow> effect list" where
  "getData engine cfg f =
     (case f of
        FetchRejected \<Rightarrow> caught FetchError
      | Response resp \<Rightarrow>
          if \<not> ok resp then
            ConsoleError (''Error fetching Reddit data: '' @ showNat (status resp) @ '' ''
                            @ statusText resp)
              # sendError (''Error fetching Reddit data: '' @ showNat (status resp))
          else
            (case json resp of
               JsonRejected \<Rightarrow> caught SyntaxError
             | Json body \<Rightarrow>
                 (case (case body of None \<Rightarrow> None
                        | Some b \<Rightarrow> (case data b of None \<Rightarrow> None | Some d \<Rightarrow> children d)) of
                    None \<Rightarrow> sendError noPostsMessage
                  | Some cs \<Rightarrow>
                      (case filterPosts cfg cs of
                         Inl e \<Rightarrow> caught e
                       | Inr kept \<Rightarrow>
                           (case mapPosts engine cfg kept of
                              Inl e \<Rightarrow> caught e
                            | Inr posts \<Rightarrow> sendData posts)))))"

section \<open>Example data\<close>

text \<open>
  A post as the feed delivers it: five scaled variants in ascending size and the
  full-size source, whose dimensions differ from the largest scaled variant.
\<close>

definition exampleSource :: ImageVariant where
  "exampleSource = \<lparr>url = ''https://i.example/full.jpg'', width = 1920, height = 1080\<rparr>"

definition exampleResolutions :: "ImageVariant list" where
  "exampleResolutions =
     [\<lparr>url = ''https://i.example/108.jpg'', width = 108, height = 60\<rparr>,
      \<lparr>url = ''https://i.example/216.jpg'', width = 216, height = 121\<rparr>,
      \<lparr>url = ''https://i.example/320.jpg'', width = 320, height = 180\<rparr>,
      \<lparr>url = ''https://i.example/640.jpg'', width = 640, height = 360\<rparr>,
      \<lparr>url = ''https://i.example/960.jpg'', width = 960, height = 540\<rparr>]"

definition exampleImageObj :: ImageVariantSet where
  "exampleImageObj = \<lparr>source = Some exampleSource, resolutions = exampleResolutions\<rparr>"

definition examplePreview :: PreviewData where
  "examplePreview = \<lparr>images = Some [exampleImageObj]\<rparr>"

text \<open>A small image: the feed lists no scaled variant for it.\<close>

definition smallImageObj :: ImageVariantSet where
  "smallImageObj = \<lparr>source = Some exampleSource, resolutions = []\<rparr>"

definition smallPreview :: PreviewData where
  "smallPreview = \<lparr>images = Some [smallImageObj]\<rparr>"

definition exampleConfig :: Config where
  "exampleConfig =
     \<lparr>displayType = ''image'', imageQuality = ''high'', titleReplacements = [],
      characterLimit = None\<rparr>"

definition examplePost :: RawPost where
  "examplePost =
     \<lparr>title = ''Hello World'', score = 42, thumbnail = Some ''https://t.example/x.jpg'',
      preview = Some examplePreview, gilded = 0, num_comments = 7,
      subreddit = ''pics'', author = ''someone''\<rparr>"

text \<open>
  The example configuration under a display type other than \<^verbatim>\<open>image\<close>, a post with
  the small image, and a successful response with the given posts.
\<close>

definition listConfig :: Config where
  "listConfig =
     \<lparr>displayType = ''list'', imageQuality = ''high'', titleReplacements = [],
      characterLimit = None\<rparr>"

definition smallPost :: RawPost where
  "smallPost =
     \<lparr>title = ''Tiny'', score = 1, thumbnail = Some ''https://t.example/s.jpg'',
      preview = Some smallPreview, gilded = 0, num_comments = 0,
      subreddit = ''pics'', author = ''someone''\<rparr>"

definition okResponse :: "RawPost list \<Rightarrow> fetched" where
  "okResponse posts =
     Response \<lparr>ok = True, status = 200, statusText = ''OK'',
               json = Json (Some \<lparr>data = Some \<lparr>children = Some posts\<rparr>\<rparr>)\<rparr>"



definition worldRule :: TitleRule where
  "worldRule = \<lparr>toReplace = ''World'', replacement = ''W'', caseSensitive = None\<rparr>"

section \<open>Facts about the built-ins\<close>

lemma startsWith_iff: "startsWith s p \<longleftrightarrow> (\<exists>post. s = p @ post)"
proof
  assume "startsWith s p"
  then have "s = p @ drop (length p) s"
    unfolding startsWith_def by (metis append_take_drop_id)
  then show "\<exists>post. s = p @ post" ..
next
  assume "\<exists>post. s = p @ post"
  then show "startsWith s p" by (auto simp: startsWith_def)
qed

lemma strIndexOf_lower: "- 1 \<le> strIndexOf t p"
  by (induction t) (auto simp: Let_def)

lemma strIndexOf_contains:
  "strIndexOf t p \<noteq> - 1 \<longleftrightarrow> (\<exists>pre post. t = pre @ p @ post)"
proof (induction t)
  case Nil
  then show ?case by simp
next
  case (Cons c cs)
  show ?case
  proof (cases "startsWith (c # cs) p")
    case True
    then obtain post where "c # cs = [] @ p @ post"
      by (auto simp: startsWith_iff)
    then have "\<exists>pre post. c # cs = pre @ p @ post" by blast
    with True show ?thesis by simp
  next
    case False
    have "strIndexOf (c # cs) p \<noteq> - 1 \<longleftrightarrow> strIndexOf cs p \<noteq> - 1"
      using False strIndexOf_lower [of cs p] by (auto simp: Let_def)
    also have "\<dots> \<longleftrightarrow> (\<exists>pre post. cs = pre @ p @ post)"
      by (rule Cons.IH)
    also have "\<dots> \<longleftrightarrow> (\<exists>pre post. c # cs = pre @ p @ post)"
    proof
      assume "\<exists>pre post. cs = pre @ p @ post"
      then obtain pre post where "cs = pre @ p @ post" by blast
      then have "c # cs = (c # pre) @ p @ post" by simp
      then show "\<exists>pre post. c # cs = pre @ p @ post" by blast
    next
      assume "\<exists>pre post. c # cs = pre @ p @ post"
      then obtain pre post where e: "c # cs = pre @ p @ post" by blast
      show "\<exists>pre post. cs = pre @ p @ post"
      proof (cases pre)
        case Nil
        with e have "startsWith (c # cs) p" by (auto simp: startsWith_iff)
        with False show ?thesis by simp
      next
        case (Cons a pre')
        with e have "cs = pre' @ p @ post" by simp
        then show ?thesis by blast
      qed
    qed
    finally show ?thesis .
  qed
qed

lemma startsWith_strIndexOf: "startsWith t p \<Longrightarrow> strIndexOf t p = 0"
  by (cases t) (auto simp: startsWith_def)

section \<open>Facts about the image index\<close>

lemma floor_quarter: "Math_floor (of_int r / 4 * of_nat n) = (r * int n) div 4"
proof -
  have "(of_int r / 4 * of_nat n :: rat) = of_int (r * int n) / of_int 4"
    by simp
  then show ?thesis
    unfolding Math_floor_def by (simp only: floor_divide_of_int_eq)
qed

lemma round_quarter: "Math_round (of_int r / 4 * of_nat n) = (r * int n + 2) div 4"
proof -
  have "(of_int r / 4 * of_nat n + 1 / 2 :: rat) = of_int (r * int n + 2) / of_int 4"
    by (simp add: field_simps)
  then show ?thesis
    unfolding Math_round_def by (simp only: floor_divide_of_int_eq)
qed

lemma Math_round_eq_round: "Math_round x = round x"
  by (simp add: Math_round_def round_def)

lemma qualityIndex_rank:
  "q \<in> set qualityIndex \<Longrightarrow> 0 \<le> indexOf qualityIndex q \<and> indexOf qualityIndex q \<le> 3"
  by (auto simp: qualityIndex_def)

lemma imageIndexOf_div:
  "imageIndexOf q n =
     (if 5 < n then (indexOf qualityIndex q * int n + 2) div 4
      else (indexOf qualityIndex q * int n) div 4)"
  unfolding imageIndexOf_def Let_def floor_quarter round_quarter by simp

lemma imageIndexOf_in_range:
  assumes "q \<in> set qualityIndex" and "0 < n"
  shows "0 \<le> imageIndexOf q n \<and> imageIndexOf q n < int n"
proof -
  define r where "r = indexOf qualityIndex q"
  have r: "0 \<le> r" "r \<le> 3"
    using qualityIndex_rank [OF assms(1)] by (simp_all add: r_def)
  then have "r = 0 \<or> r = 1 \<or> r = 2 \<or> r = 3" by arith
  then show ?thesis
    using assms(2) unfolding imageIndexOf_div r_def [symmetric]
    by (auto split: if_splits)
qed

section \<open>Facts about the candidate list and the gate\<close>

lemma getAllImages_nonempty:
  assumes "resolutions imageObj \<noteq> []" and "source imageObj = Some s"
  shows "getAllImages imageObj =
     (let l = last (resolutions imageObj);
          c = resolutions imageObj @ (if width l = width s \<and> height l = height s then [] else [s])
      in (Inr c, imageObj\<lparr>resolutions := c\<rparr>))"
  using assms by (simp add: getAllImages_def pop_def push_def Let_def)

lemma getAllImages_empty:
  "resolutions imageObj = [] \<Longrightarrow> getAllImages imageObj = (Inl TypeError, imageObj)"
  by (simp add: getAllImages_def pop_def)

lemma getAllImages_no_source:
  "source imageObj = None \<Longrightarrow> fst (getAllImages imageObj) = Inl TypeError"
  by (simp add: getAllImages_def pop_def split: prod.splits option.splits)

lemma getAllImages_InrD:
  assumes "getAllImages imageObj = (Inr c, imageObj')"
  shows "\<exists>s. source imageObj = Some s \<and> resolutions imageObj \<noteq> [] \<and>
           c = resolutions imageObj @
                 (if width (last (resolutions imageObj)) = width s \<and>
                     height (last (resolutions imageObj)) = height s then [] else [s]) \<and>
           imageObj' = imageObj\<lparr>resolutions := c\<rparr>"
proof (cases "source imageObj")
  case None
  then show ?thesis using assms getAllImages_no_source [of imageObj] by simp
next
  case (Some s)
  show ?thesis
  proof (cases "resolutions imageObj = []")
    case True
    then show ?thesis using assms by (simp add: getAllImages_empty)
  next
    case False
    then show ?thesis using assms Some
      by (auto simp: getAllImages_nonempty Let_def)
  qed
qed

lemma getAllImages_again:
  assumes "getAllImages imageObj = (Inr c, imageObj')"
  shows "getAllImages imageObj' = (Inr c, imageObj')"
proof -
  from getAllImages_InrD [OF assms] obtain s where
    s: "source imageObj = Some s" and ne: "resolutions imageObj \<noteq> []" and
    c: "c = resolutions imageObj @
                 (if width (last (resolutions imageObj)) = width s \<and>
                     height (last (resolutions imageObj)) = height s then [] else [s])" and
    o: "imageObj' = imageObj\<lparr>resolutions := c\<rparr>"
    by blast
  have ne': "resolutions imageObj' \<noteq> []" using o c ne by simp
  have s': "source imageObj' = Some s" using o s by simp
  have l: "width (last c) = width s \<and> height (last c) = height s"
    using c ne by simp
  show ?thesis
    using getAllImages_nonempty [OF ne' s'] l o by (simp add: Let_def)
qed

lemma skipNonImagePost_False:
  "skipNonImagePost pv th = Inr False \<longleftrightarrow>
     (\<exists>t p first rest s. th = Some t \<and> pv = Some p \<and> strIndexOf t ''http'' \<noteq> - 1 \<and>
        images p = Some (first # rest) \<and> source first = Some s)"
  by (auto simp: skipNonImagePost_def Let_def split: option.splits list.splits if_splits)

lemma skipNonImagePost_True:
  "skipNonImagePost pv th = Inr True \<longleftrightarrow>
     (\<exists>t. th = Some t \<and>
        (pv = None \<or> strIndexOf t ''http'' = - 1 \<or>
         (\<exists>p. pv = Some p \<and> (images p = None \<or>
            (\<exists>first rest. images p = Some (first # rest) \<and> source first = None)))))"
  by (auto simp: skipNonImagePost_def Let_def split: option.splits list.splits if_splits)

lemma getImageUrl_skipped:
  "skipNonImagePost pv th = Inr True \<Longrightarrow> getImageUrl cfg pv th = (Inr None, pv)"
  by (simp add: getImageUrl_def)

lemma getImageUrl_thrown:
  "skipNonImagePost pv th = Inl e \<Longrightarrow> getImageUrl cfg pv th = (Inl e, pv)"
  by (simp add: getImageUrl_def)

lemma getImageUrl_eligible:
  assumes "skipNonImagePost (Some p) th = Inr False"
      and "images p = Some (first # rest)"
      and "getAllImages first = (r, first')"
  shows "getImageUrl cfg (Some p) th =
     (case r of
        Inl e \<Rightarrow> Inl e
      | Inr candidates \<Rightarrow>
         (case elemAt candidates (imageIndexOf (imageQuality cfg) (length candidates)) of
            None \<Rightarrow> Inl TypeError
          | Some img \<Rightarrow> Inr (Some (url img))),
      Some (p\<lparr>images := Some (first' # rest)\<rparr>))"
  using assms by (simp add: getImageUrl_def Let_def split: option.splits sum.splits)

text \<open>What a returning call of \<^verbatim>\<open>getImageUrl\<close> did.\<close>

lemma getImageUrl_InrD:
  assumes "getImageUrl cfg pv th = (Inr r, pv')"
  shows "(skipNonImagePost pv th = Inr True \<and> r = None \<and> pv' = pv) \<or>
         (\<exists>p first rest candidates first' u.
            skipNonImagePost pv th = Inr False \<and> pv = Some p \<and>
            images p = Some (first # rest) \<and>
            getAllImages first = (Inr candidates, first') \<and>
            elemAt candidates (imageIndexOf (imageQuality cfg) (length candidates)) = Some u \<and>
            r = Some (url u) \<and> pv' = Some (p\<lparr>images := Some (first' # rest)\<rparr>))"
proof (cases "skipNonImagePost pv th")
  case (Inl e)
  then show ?thesis using assms by (simp add: getImageUrl_thrown)
next
  case (Inr b)
  show ?thesis
  proof (cases b)
    case True
    then show ?thesis using assms Inr by (simp add: getImageUrl_skipped)
  next
    case False
    with Inr have sk: "skipNonImagePost pv th = Inr False" by simp
    then obtain p first rest where
      pv: "pv = Some p" and im: "images p = Some (first # rest)"
      unfolding skipNonImagePost_False by blast
    obtain g first' where g: "getAllImages first = (g, first')"
      by (cases "getAllImages first")
    have sk': "skipNonImagePost (Some p) th = Inr False" using sk pv by simp
    note e = getImageUrl_eligible [OF sk' im g, of cfg]
    show ?thesis
      using assms e sk pv im g
      by (auto split: sum.splits option.splits)
  qed
qed

lemma getImageUrl_again:
  assumes "getImageUrl cfg pv th = (Inr r, pv')"
  shows "getImageUrl cfg pv' th = (Inr r, pv')"
  using getImageUrl_InrD [OF assms]
proof (elim disjE exE conjE)
  assume "skipNonImagePost pv th = Inr True" "r = None" "pv' = pv"
  then show ?thesis by (simp add: getImageUrl_skipped)
next
  fix p first rest candidates first' u
  assume sk: "skipNonImagePost pv th = Inr False" and pv: "pv = Some p"
    and im: "images p = Some (first # rest)"
    and g: "getAllImages first = (Inr candidates, first')"
    and e: "elemAt candidates (imageIndexOf (imageQuality cfg) (length candidates)) = Some u"
    and r: "r = Some (url u)" and pv': "pv' = Some (p\<lparr>images := Some (first' # rest)\<rparr>)"
  let ?p' = "p\<lparr>images := Some (first' # rest)\<rparr>"
  from getAllImages_InrD [OF g] obtain s where
    "source first = Some s" "first' = first\<lparr>resolutions := candidates\<rparr>" by blast
  then have s': "source first' = Some s" by simp
  from sk obtain t where t: "th = Some t" "strIndexOf t ''http'' \<noteq> - 1"
    unfolding skipNonImagePost_False by blast
  have im': "images ?p' = Some (first' # rest)" by simp
  have sk': "skipNonImagePost (Some ?p') th = Inr False"
    unfolding skipNonImagePost_False using t s' by simp
  have g': "getAllImages first' = (Inr candidates, first')"
    by (rule getAllImages_again [OF g])
  show ?thesis
    using getImageUrl_eligible [OF sk' im' g', of cfg] e r pv' by simp
qed

section \<open>Facts about title formatting\<close>

lemma formatTitle_limit:
  assumes "applyReplacements engine (titleReplacements cfg) t0 = Inr t1"
      and "characterLimit cfg = Some limit"
  shows "formatTitle engine cfg t0 =
           Inr (trim (slice0 t1 limit) @
                (if length (trim (slice0 t1 limit)) \<noteq> length t0 then ''...'' else []))"
  using assms by (simp add: formatTitle_def Let_def)

lemma formatTitle_examples:
  "formatTitle literalEngine (exampleConfig\<lparr>characterLimit := Some 5\<rparr>) ''Hello World'' = Inr ''Hello...'' \<and>
   formatTitle literalEngine (exampleConfig\<lparr>characterLimit := Some 2\<rparr>) ''Hi'' = Inr ''Hi''"
  by code_simp



section \<open>Facts about posts whose candidate list is built\<close>

text \<open>
  On a post that passes the gate and whose candidate list has been built, with \<open>r\<close> the
  rank of the configured quality (low 0, mid 1, mid-high 2, high 3),
  \<open>qualityPercent = r / 4\<close> and \<open>n\<close> the length of the candidate list, the index is
  \<open>\<lfloor>qualityPercent * n\<rfloor>\<close> when \<open>n \<le> 5\<close> and \<open>round (qualityPercent * n)\<close> when
  \<open>n > 5\<close>; it lies in \<open>0 ..< n\<close>, and \<^verbatim>\<open>getImageUrl\<close> returns the URL of the
  candidate at that index.
\<close>

lemma getImageUrl_index:
  assumes "skipNonImagePost (Some p) th = Inr False"
      and "images p = Some (first # rest)"
      and "getAllImages first = (Inr candidates, first')"
      and "imageQuality cfg \<in> set qualityIndex"
  shows "indexOf qualityIndex ''low'' = 0 \<and> indexOf qualityIndex ''mid'' = 1 \<and>
         indexOf qualityIndex ''mid-high'' = 2 \<and> indexOf qualityIndex ''high'' = 3 \<and>
         (let n = length candidates;
              r = indexOf qualityIndex (imageQuality cfg);
              qualityPercent = (of_int r / 4 :: rat);
              i = (if n \<le> 5 then \<lfloor>qualityPercent * of_nat n\<rfloor>
                   else round (qualityPercent * of_nat n))
          in 0 \<le> i \<and> i < int n \<and>
             fst (getImageUrl cfg (Some p) th) = Inr (Some (url (candidates ! nat i))))"
proof -
  define n where "n = length candidates"
  define i where "i = imageIndexOf (imageQuality cfg) n"
  have ne: "candidates \<noteq> []"
    using getAllImages_InrD [OF assms(3)] by auto
  then have "0 < n" by (simp add: n_def)
  from imageIndexOf_in_range [OF assms(4) this]
  have b: "0 \<le> i" "i < int n" by (simp_all add: i_def)
  then have e: "elemAt candidates i = Some (candidates ! nat i)"
    by (simp add: elemAt_def n_def)
  have g: "fst (getImageUrl cfg (Some p) th) = Inr (Some (url (candidates ! nat i)))"
    using getImageUrl_eligible [OF assms(1-3), of cfg] e by (simp add: i_def n_def)
  have i: "i = (if n \<le> 5
                then \<lfloor>(of_int (indexOf qualityIndex (imageQuality cfg)) / 4 :: rat) * of_nat n\<rfloor>
                else round ((of_int (indexOf qualityIndex (imageQuality cfg)) / 4 :: rat)
                       * of_nat n))"
    unfolding i_def imageIndexOf_def Let_def
    by (simp add: Math_floor_def Math_round_eq_round)
  have ranks: "indexOf qualityIndex ''low'' = 0 \<and> indexOf qualityIndex ''mid'' = 1 \<and>
         indexOf qualityIndex ''mid-high'' = 2 \<and> indexOf qualityIndex ''high'' = 3"
    by (simp add: qualityIndex_def)
  show ?thesis
    using ranks b g i unfolding Let_def n_def [symmetric] by simp
qed

text \<open>
  The example post under the quality high: six candidates, the index is
  \<open>round (3 / 4 * 6) = 5\<close>, the source.
\<close>

lemma getImageUrl_index_example:
  "skipNonImagePost (Some examplePreview) (Some ''https://t.example/x.jpg'') = Inr False \<and>
   images examplePreview = Some (exampleImageObj # []) \<and>
   getAllImages exampleImageObj =
     (Inr (exampleResolutions @ [exampleSource]),
      exampleImageObj\<lparr>resolutions := exampleResolutions @ [exampleSource]\<rparr>) \<and>
   imageQuality exampleConfig \<in> set qualityIndex \<and>
   length (exampleResolutions @ [exampleSource]) = 6 \<and>
   round ((of_int (indexOf qualityIndex (imageQuality exampleConfig)) / 4 :: rat) * of_nat 6) = 5 \<and>
   fst (getImageUrl exampleConfig (Some examplePreview) (Some ''https://t.example/x.jpg'')) =
     Inr (Some ''https://i.example/full.jpg'')"
proof -
  have h1: "skipNonImagePost (Some examplePreview) (Some ''https://t.example/x.jpg'') = Inr False"
    by code_simp
  have h2: "images examplePreview = Some (exampleImageObj # [])"
    by (simp add: examplePreview_def)
  have h3: "getAllImages exampleImageObj =
     (Inr (exampleResolutions @ [exampleSource]),
      exampleImageObj\<lparr>resolutions := exampleResolutions @ [exampleSource]\<rparr>)"
    by code_simp
  have h4: "imageQuality exampleConfig \<in> set qualityIndex"
    by (simp add: exampleConfig_def qualityIndex_def)
  have l: "length (exampleResolutions @ [exampleSource]) = 6"
    by (simp add: exampleResolutions_def)
  have v: "round ((of_int (indexOf qualityIndex (imageQuality exampleConfig)) / 4 :: rat) * of_nat 6) = 5"
    by code_simp
  have u: "url ((exampleResolutions @ [exampleSource]) ! nat 5) = ''https://i.example/full.jpg''"
    by code_simp
  have "fst (getImageUrl exampleConfig (Some examplePreview) (Some ''https://t.example/x.jpg'')) =
     Inr (Some ''https://i.example/full.jpg'')"
    using getImageUrl_index [OF h1 h2 h3 h4] l v u unfolding Let_def by simp
  then show ?thesis
    using h1 h2 h3 h4 l v by blast
qed

text \<open>
  When the call of \<^verbatim>\<open>getImageUrl\<close> in the callback of \<^verbatim>\<open>filter\<close> returns, the
  verdict of the callback is: the thumbnail is a non-empty string that begins with
  \<^verbatim>\<open>http\<close>, and the display type is not \<^verbatim>\<open>image\<close> or the call returned a URL. A
  post with the thumbnail \<^verbatim>\<open>self\<close> is rejected, and under the display type
  \<^verbatim>\<open>image\<close> so is a post without preview. The test of the filter is the stricter
  one: a thumbnail that begins with \<^verbatim>\<open>http\<close> contains it, and \<^verbatim>\<open>xhttp\<close> contains
  it without beginning with it.
\<close>

lemma keepPost_verdict:
  assumes "getImageUrl cfg (preview post) (thumbnail post) = (Inr imageSrc, pv')"
  shows "keepPost cfg post =
           Inr ((\<exists>t rest. thumbnail post = Some t \<and> t \<noteq> [] \<and> t = ''http'' @ rest) \<and>
                (displayType cfg \<noteq> ''image'' \<or> imageSrc \<noteq> None),
                post\<lparr>preview := pv'\<rparr>) \<and>
         (thumbnail post = Some ''self'' \<longrightarrow> keepPost cfg post = Inr (False, post)) \<and>
         (displayType cfg = ''image'' \<and> preview post = None \<longrightarrow>
            keepPost cfg post = Inr (False, post)) \<and>
         (\<forall>t. startsWith t ''http'' \<longrightarrow> strIndexOf t ''http'' = 0) \<and>
         strIndexOf ''xhttp'' ''http'' = 1 \<and> \<not> startsWith ''xhttp'' ''http''"
proof -
  have a: "(case thumbnail post of None \<Rightarrow> False | Some t \<Rightarrow> startsWith t ''http'') \<longleftrightarrow>
           (\<exists>t rest. thumbnail post = Some t \<and> t \<noteq> [] \<and> t = ''http'' @ rest)"
    by (auto simp: startsWith_iff split: option.splits)
  have k: "keepPost cfg post =
           Inr ((\<exists>t rest. thumbnail post = Some t \<and> t \<noteq> [] \<and> t = ''http'' @ rest) \<and>
                (displayType cfg \<noteq> ''image'' \<or> imageSrc \<noteq> None),
                post\<lparr>preview := pv'\<rparr>)"
    using assms a by (simp add: keepPost_def Let_def)
  have s: "thumbnail post = Some ''self'' \<longrightarrow> keepPost cfg post = Inr (False, post)"
  proof
    assume t: "thumbnail post = Some ''self''"
    have "strIndexOf ''self'' ''http'' = - 1" by (simp add: startsWith_def)
    then have "skipNonImagePost (preview post) (Some ''self'') = Inr True"
      by (simp add: skipNonImagePost_def Let_def split: option.splits)
    then have "getImageUrl cfg (preview post) (thumbnail post) = (Inr None, preview post)"
      using t by (simp add: getImageUrl_skipped)
    then show "keepPost cfg post = Inr (False, post)"
      using t by (simp add: keepPost_def Let_def startsWith_def)
  qed
  have p: "displayType cfg = ''image'' \<and> preview post = None \<longrightarrow>
            keepPost cfg post = Inr (False, post)"
  proof
    assume d: "displayType cfg = ''image'' \<and> preview post = None"
    from assms obtain t where t: "thumbnail post = Some t"
      using d by (cases "thumbnail post") (auto simp: getImageUrl_def skipNonImagePost_def)
    then have "skipNonImagePost (preview post) (thumbnail post) = Inr True"
      using d by (simp add: skipNonImagePost_def)
    then have "getImageUrl cfg (preview post) (thumbnail post) = (Inr None, preview post)"
      by (simp add: getImageUrl_skipped)
    then show "keepPost cfg post = Inr (False, post)"
      using d by (simp add: keepPost_def Let_def)
  qed
  have x: "(\<forall>t. startsWith t ''http'' \<longrightarrow> strIndexOf t ''http'' = 0) \<and>
           strIndexOf ''xhttp'' ''http'' = 1 \<and> \<not> startsWith ''xhttp'' ''http''"
    by (simp add: startsWith_strIndexOf) (simp add: startsWith_def)
  show ?thesis using k s p x by blast
qed

text \<open>The example post passes the filter under the display type \<^verbatim>\<open>image\<close>.\<close>

lemma keepPost_verdict_example:
  "getImageUrl exampleConfig (preview examplePost) (thumbnail examplePost) =
     (Inr (Some ''https://i.example/full.jpg''),
      Some (examplePreview\<lparr>images := Some [exampleImageObj\<lparr>resolutions :=
              exampleResolutions @ [exampleSource]\<rparr>]\<rparr>)) \<and>
   (\<exists>post'. keepPost exampleConfig examplePost = Inr (True, post'))"
proof -
  have h: "getImageUrl exampleConfig (preview examplePost) (thumbnail examplePost) =
     (Inr (Some ''https://i.example/full.jpg''),
      Some (examplePreview\<lparr>images := Some [exampleImageObj\<lparr>resolutions :=
              exampleResolutions @ [exampleSource]\<rparr>]\<rparr>))"
    by code_simp
  have t: "\<exists>t rest. thumbnail examplePost = Some t \<and> t \<noteq> [] \<and> t = ''http'' @ rest"
    by (simp add: examplePost_def)
  show ?thesis
    using h t keepPost_verdict [OF h] by simp
qed

section \<open>The claims\<close>

text \<open>
  Claim C1, on an eligible image post whose variant set has no scaled variants: the
  candidate list would be the source alone, the index \<open>\<lfloor>3 / 4 * 1\<rfloor> = 0\<close> and the URL
  that of the source, but \<^verbatim>\<open>getImageUrl\<close> throws a \<open>TypeError\<close> before any index
  is computed.
\<close>

theorem getImageUrl_small_image_no_index:
  "skipNonImagePost (Some smallPreview) (Some ''https://t.example/x.jpg'') = Inr False \<and>
   imageQuality exampleConfig \<in> set qualityIndex \<and>
   imageIndexOf (imageQuality exampleConfig) (length [exampleSource]) = 0 \<and>
   fst (getImageUrl exampleConfig (Some smallPreview) (Some ''https://t.example/x.jpg''))
     = Inl TypeError \<and>
   fst (getImageUrl exampleConfig (Some smallPreview) (Some ''https://t.example/x.jpg''))
     \<noteq> Inr (Some (url exampleSource))"
  by code_simp

text \<open>
  Claim C2, on a variant set without scaled variants: \<^verbatim>\<open>getAllImages\<close> throws a
  \<open>TypeError\<close> where the candidate list made of the source alone is expected.
\<close>

theorem getAllImages_no_resolutions_throws:
  "getAllImages smallImageObj = (Inl TypeError, smallImageObj) \<and>
   source smallImageObj = Some exampleSource \<and> resolutions smallImageObj = []"
  by (simp add: getAllImages_empty smallImageObj_def)

text \<open>
  Claim C3, on a post for which none of the four conditions holds (the gate lets it pass)
  and whose variant set has no scaled variants: \<^verbatim>\<open>getImageUrl\<close> throws a
  \<open>TypeError\<close> where a candidate URL is expected.
\<close>

theorem getImageUrl_no_resolutions_throws:
  "strIndexOf ''https://t.example/x.jpg'' ''http'' = 0 \<and>
   images smallPreview = Some [smallImageObj] \<and>
   source smallImageObj = Some exampleSource \<and>
   imageQuality exampleConfig = ''high'' \<and>
   skipNonImagePost (Some smallPreview) (Some ''https://t.example/x.jpg'') = Inr False \<and>
   getImageUrl exampleConfig (Some smallPreview) (Some ''https://t.example/x.jpg'') =
     (Inl TypeError, Some smallPreview)"
  by code_simp

text \<open>
  Claim C4, on a post whose thumbnail begins with \<^verbatim>\<open>http\<close>, under a display type
  other than \<^verbatim>\<open>image\<close>, whose variant set has no scaled variants: both conditions of
  eligibility hold, but the callback of \<^verbatim>\<open>filter\<close> calls \<^verbatim>\<open>getImageUrl\<close> for
  every post and throws with it, and the cycle emits the error of the \<^verbatim>\<open>catch\<close>
  block instead of the posts. Without that post the cycle emits the other one.
\<close>

theorem keepPost_small_image_throws:
  "(\<exists>rest. thumbnail smallPost = Some (''http'' @ rest)) \<and>
   displayType listConfig \<noteq> ''image'' \<and>
   keepPost listConfig smallPost = Inl TypeError \<and>
   getData literalEngine listConfig (okResponse [examplePost, smallPost]) =
     caught TypeError \<and>
   getData literalEngine listConfig (okResponse [examplePost]) =
     sendData [OutputPost ''Hello World'' 42 (Some ''https://t.example/x.jpg'')
                 (Some ''https://i.example/full.jpg'') 0 7 ''pics'' ''someone'']"
proof -
  have 1: "\<exists>rest. thumbnail smallPost = Some (''http'' @ rest)"
    by (simp add: smallPost_def)
  have 2: "displayType listConfig \<noteq> ''image''"
    by (simp add: listConfig_def)
  have 3: "keepPost listConfig smallPost = Inl TypeError"
    by code_simp
  have 4: "getData literalEngine listConfig (okResponse [examplePost, smallPost]) =
     caught TypeError"
    by code_simp
  have 5: "getData literalEngine listConfig (okResponse [examplePost]) =
     sendData [OutputPost ''Hello World'' 42 (Some ''https://t.example/x.jpg'')
                 (Some ''https://i.example/full.jpg'') 0 7 ''pics'' ''someone'']"
    by code_simp
  show ?thesis using 1 2 3 4 5 by blast
qed

text \<open>The callback has no verdict on the post with the small image, and the cycle fails.\<close>

theorem keepPost_small_image_throws_witness:
  "keepPost listConfig smallPost = Inl TypeError \<and>
   getData literalEngine listConfig (okResponse [examplePost, smallPost]) = caught TypeError"
  using keepPost_small_image_throws by blast

text \<open>
  Claim C5, on a title that a rule shortens to exactly the limit: the length compared
  with is that of the title before the rules, so the marker \<^verbatim>\<open>...\<close> is appended
  although nothing was cut off.
\<close>

theorem formatTitle_marks_untruncated_title:
  "applyReplacements literalEngine [worldRule] ''Hello World'' = Inr ''Hello W'' \<and>
   length ''Hello W'' = 7 \<and>
   formatTitle literalEngine
     (exampleConfig\<lparr>titleReplacements := [worldRule], characterLimit := Some 7\<rparr>)
     ''Hello World'' = Inr ''Hello W...''"
  by code_simp


text \<open>
  Claim C7 as stated fails: after a call on the example post the preview is not what it
  was, the source has been appended to the \<^verbatim>\<open>resolutions\<close> array of the post.
\<close>

theorem getImageUrl_changes_preview:
  "snd (getImageUrl exampleConfig (Some examplePreview) (Some ''https://t.example/x.jpg''))
     \<noteq> Some examplePreview \<and>
   resolutions (snd (getAllImages exampleImageObj)) = resolutions exampleImageObj @ [exampleSource]"
  by code_simp

text \<open>
  Claim C7, amended. \<^verbatim>\<open>getImageUrl\<close> works on the \<^verbatim>\<open>resolutions\<close> array of the
  caller, not on a copy. Whether the call returns or throws: when the post does not pass
  the gate of \<^verbatim>\<open>skipNonImagePost\<close>, and so whenever \<^verbatim>\<open>null\<close> is returned, the
  preview is left as it was; when the post passes the gate, nothing changes but the
  \<^verbatim>\<open>resolutions\<close> array of the first variant set, to which the source is appended
  when the array is not empty and the dimensions of its last entry differ from those of
  the source, and the preview is unchanged exactly when the array is empty or they agree.
\<close>

theorem getImageUrl_frame:
  "(fst (getImageUrl cfg pv th) = Inr None \<longrightarrow> snd (getImageUrl cfg pv th) = pv) \<and>
   (skipNonImagePost pv th \<noteq> Inr False \<longrightarrow> snd (getImageUrl cfg pv th) = pv) \<and>
   (\<forall>p first rest s.
      skipNonImagePost pv th = Inr False \<and> pv = Some p \<and>
      images p = Some (first # rest) \<and> source first = Some s \<longrightarrow>
        snd (getImageUrl cfg pv th) =
          Some (p\<lparr>images := Some (first\<lparr>resolutions := resolutions first @
                  (if resolutions first = [] \<or>
                      (width (last (resolutions first)) = width s \<and>
                       height (last (resolutions first)) = height s) then [] else [s])\<rparr>
                # rest)\<rparr>) \<and>
        (snd (getImageUrl cfg pv th) = pv \<longleftrightarrow>
           resolutions first = [] \<or>
           (width (last (resolutions first)) = width s \<and>
            height (last (resolutions first)) = height s)))"
proof -
  have 2: "skipNonImagePost pv th \<noteq> Inr False \<longrightarrow> snd (getImageUrl cfg pv th) = pv"
  proof (cases "skipNonImagePost pv th")
    case (Inl e)
    then show ?thesis by (simp add: getImageUrl_thrown)
  next
    case (Inr b)
    then show ?thesis by (cases b) (simp_all add: getImageUrl_skipped)
  qed
  have 3: "snd (getImageUrl cfg pv th) =
          Some (p\<lparr>images := Some (first\<lparr>resolutions := resolutions first @
                  (if resolutions first = [] \<or>
                      (width (last (resolutions first)) = width s \<and>
                       height (last (resolutions first)) = height s) then [] else [s])\<rparr>
                # rest)\<rparr>) \<and>
        (snd (getImageUrl cfg pv th) = pv \<longleftrightarrow>
           resolutions first = [] \<or>
           (width (last (resolutions first)) = width s \<and>
            height (last (resolutions first)) = height s)) \<and>
        fst (getImageUrl cfg pv th) \<noteq> Inr None"
    if sk: "skipNonImagePost pv th = Inr False" and pv: "pv = Some p"
      and im: "images p = Some (first # rest)" and s: "source first = Some s"
    for p first rest s
  proof -
    let ?m = "resolutions first = [] \<or>
           (width (last (resolutions first)) = width s \<and>
            height (last (resolutions first)) = height s)"
    let ?c = "resolutions first @ (if ?m then [] else [s])"
    obtain g first' where g: "getAllImages first = (g, first')"
      by (cases "getAllImages first")
    have f: "first' = first\<lparr>resolutions := ?c\<rparr>"
    proof (cases "resolutions first = []")
      case True
      then show ?thesis using g by (simp add: getAllImages_empty)
    next
      case False
      then show ?thesis
        using g getAllImages_nonempty [OF False s] by (auto simp: Let_def)
    qed
    have sk': "skipNonImagePost (Some p) th = Inr False" using sk pv by simp
    note e = getImageUrl_eligible [OF sk' im g, of cfg]
    have a: "snd (getImageUrl cfg pv th) = Some (p\<lparr>images := Some (first' # rest)\<rparr>)"
      using e pv by simp
    have n: "fst (getImageUrl cfg pv th) \<noteq> Inr None"
      using e pv by (auto split: sum.splits option.splits)
    have "Some (p\<lparr>images := Some (first' # rest)\<rparr>) = pv \<longleftrightarrow> first' = first"
      using pv im
      by (metis PreviewData.surjective PreviewData.update_convs(1) list.inject option.inject
          PreviewData.select_convs(1))
    also have "\<dots> \<longleftrightarrow> ?c = resolutions first"
      using f by (metis ImageVariantSet.select_convs(2) ImageVariantSet.surjective
          ImageVariantSet.update_convs(2))
    also have "\<dots> \<longleftrightarrow> ?m" by auto
    finally show ?thesis using a f n by simp
  qed
  have 1: "fst (getImageUrl cfg pv th) = Inr None \<longrightarrow> snd (getImageUrl cfg pv th) = pv"
  proof (cases "skipNonImagePost pv th = Inr False")
    case True
    then obtain p first rest s where
      "pv = Some p" "images p = Some (first # rest)" "source first = Some s"
      unfolding skipNonImagePost_False by blast
    from 3 [OF True this] show ?thesis by simp
  next
    case False
    with 2 show ?thesis by simp
  qed
  show ?thesis using 1 2 3 by blast
qed

text \<open>
  The example post: the source is appended to its five scaled variants. The post with
  the small image: the call throws and the preview is as before. No preview: the result
  is \<^verbatim>\<open>null\<close> and nothing changes.
\<close>

theorem getImageUrl_frame_witness:
  "skipNonImagePost (Some examplePreview) (Some ''https://t.example/x.jpg'') = Inr False \<and>
   images examplePreview = Some (exampleImageObj # []) \<and>
   source exampleImageObj = Some exampleSource \<and>
   snd (getImageUrl exampleConfig (Some examplePreview) (Some ''https://t.example/x.jpg'')) =
     Some (examplePreview\<lparr>images := Some [exampleImageObj\<lparr>resolutions :=
             exampleResolutions @ [exampleSource]\<rparr>]\<rparr>) \<and>
   snd (getImageUrl exampleConfig (Some examplePreview) (Some ''https://t.example/x.jpg''))
     \<noteq> Some examplePreview \<and>
   fst (getImageUrl exampleConfig (Some smallPreview) (Some ''https://t.example/x.jpg''))
     = Inl TypeError \<and>
   snd (getImageUrl exampleConfig (Some smallPreview) (Some ''https://t.example/x.jpg''))
     = Some smallPreview \<and>
   fst (getImageUrl exampleConfig None (Some ''https://t.example/x.jpg'')) = Inr None \<and>
   snd (getImageUrl exampleConfig None (Some ''https://t.example/x.jpg'')) = None"
proof -
  let ?th = "Some ''https://t.example/x.jpg''"
  have h1: "skipNonImagePost (Some examplePreview) ?th = Inr False"
    by code_simp
  have h2: "images examplePreview = Some (exampleImageObj # [])"
    by (simp add: examplePreview_def)
  have h3: "source exampleImageObj = Some exampleSource"
    by (simp add: exampleImageObj_def)
  have r: "resolutions exampleImageObj = exampleResolutions"
    by (simp add: exampleImageObj_def)
  have m: "\<not> (exampleResolutions = [] \<or>
              (width (last exampleResolutions) = width exampleSource \<and>
               height (last exampleResolutions) = height exampleSource))"
    by (simp add: exampleResolutions_def exampleSource_def)
  note f = getImageUrl_frame [of exampleConfig "Some examplePreview" ?th]
  from f h1 h2 h3 have
    a: "snd (getImageUrl exampleConfig (Some examplePreview) ?th) =
          Some (examplePreview\<lparr>images := Some (exampleImageObj\<lparr>resolutions :=
                  resolutions exampleImageObj @
                  (if resolutions exampleImageObj = [] \<or>
                      (width (last (resolutions exampleImageObj)) = width exampleSource \<and>
                       height (last (resolutions exampleImageObj)) = height exampleSource)
                   then [] else [exampleSource])\<rparr> # [])\<rparr>)"
    and b: "snd (getImageUrl exampleConfig (Some examplePreview) ?th) = Some examplePreview \<longleftrightarrow>
           resolutions exampleImageObj = [] \<or>
           (width (last (resolutions exampleImageObj)) = width exampleSource \<and>
            height (last (resolutions exampleImageObj)) = height exampleSource)"
    by blast+
  have a': "snd (getImageUrl exampleConfig (Some examplePreview) ?th) =
     Some (examplePreview\<lparr>images := Some [exampleImageObj\<lparr>resolutions :=
             exampleResolutions @ [exampleSource]\<rparr>]\<rparr>)"
    using a m unfolding r by simp
  have b': "snd (getImageUrl exampleConfig (Some examplePreview) ?th) \<noteq> Some examplePreview"
    using b m unfolding r by simp
  have s1: "fst (getImageUrl exampleConfig (Some smallPreview) ?th) = Inl TypeError"
    by code_simp
  have s2: "snd (getImageUrl exampleConfig (Some smallPreview) ?th) = Some smallPreview"
    by code_simp
  have n1: "fst (getImageUrl exampleConfig None ?th) = Inr None"
    by code_simp
  have n2: "snd (getImageUrl exampleConfig None ?th) = None"
    using n1 getImageUrl_frame [of exampleConfig None ?th] by blast
  show ?thesis using h1 h2 h3 a' b' s1 s2 n1 n2 by blast
qed

text \<open>
  Claim C8. When the request succeeds and the decoded body has no \<^verbatim>\<open>data.children\<close>,
  the cycle emits the guidance message about the spelling of the subreddit and private
  subreddits, as a \<^verbatim>\<open>REDDIT_POSTS_ERROR\<close> notification (and a console line), a
  message different from those of the other failures, and no \<^verbatim>\<open>REDDIT_POSTS\<close>
  notification.
\<close>

theorem getData_no_posts:
  assumes "ok resp" and "json resp = Json body"
      and "body = None \<or>
           (\<exists>b. body = Some b \<and>
                (data b = None \<or> (\<exists>d. data b = Some d \<and> children d = None)))"
  shows "getData engine cfg (Response resp) =
           [ConsoleLog noPostsMessage,
            SocketNotification ''REDDIT_POSTS_ERROR'' (Message noPostsMessage)] \<and>
         noPostsMessage =
           ''No posts returned. Ensure the subreddit name is spelled correctly. Private subreddits are also inaccessible.'' \<and>
         noPostsMessage \<noteq> ''An error occurred while fetching Reddit data.'' \<and>
         (\<forall>n. noPostsMessage \<noteq> ''Error fetching Reddit data: '' @ showNat n) \<and>
         (\<forall>posts. SocketNotification ''REDDIT_POSTS'' (Posts posts)
              \<notin> set (getData engine cfg (Response resp)))"
proof -
  have g: "getData engine cfg (Response resp) = sendError noPostsMessage"
    using assms by (auto simp: getData_def)
  have m: "noPostsMessage \<noteq> ''An error occurred while fetching Reddit data.''"
    by (simp add: noPostsMessage_def)
  have n: "\<forall>n. noPostsMessage \<noteq> ''Error fetching Reddit data: '' @ showNat n"
    by (simp add: noPostsMessage_def)
  show ?thesis
    using g m n by (simp add: sendError_def) (simp add: noPostsMessage_def)
qed

text \<open>A successful response whose \<^verbatim>\<open>data\<close> has no \<^verbatim>\<open>children\<close>.\<close>

theorem getData_no_posts_witness:
  "ok \<lparr>ok = True, status = 200, statusText = ''OK'',
        json = Json (Some \<lparr>data = Some \<lparr>children = None\<rparr>\<rparr>)\<rparr> \<and>
   getData literalEngine exampleConfig
     (Response \<lparr>ok = True, status = 200, statusText = ''OK'',
                 json = Json (Some \<lparr>data = Some \<lparr>children = None\<rparr>\<rparr>)\<rparr>) =
     [ConsoleLog noPostsMessage,
      SocketNotification ''REDDIT_POSTS_ERROR'' (Message noPostsMessage)]"
proof -
  let ?resp = "\<lparr>ok = True, status = 200, statusText = ''OK'',
        json = Json (Some \<lparr>data = Some \<lparr>children = None\<rparr>\<rparr>)\<rparr>"
  have h1: "ok ?resp" by simp
  have h2: "json ?resp = Json (Some \<lparr>data = Some \<lparr>children = None\<rparr>\<rparr>)" by simp
  have h3: "Some \<lparr>data = Some \<lparr>children = None\<rparr>\<rparr> = None \<or>
           (\<exists>b. Some \<lparr>data = Some \<lparr>children = None\<rparr>\<rparr> = Some b \<and>
                (data b = None \<or> (\<exists>d. data b = Some d \<and> children d = None)))"
    by simp
  show ?thesis
    using h1 getData_no_posts [OF h1 h2 h3, of literalEngine exampleConfig] by blast
qed

text \<open>
  Claim C9. For a non-empty candidate list and a quality among low, mid, mid-high and
  high, the rank is at most 3 and the index computed by either branch lies in
  \<open>0 ..< n\<close>, so that the read of the candidate at the index stays inside the list.
\<close>

theorem imageIndex_in_bounds:
  assumes "candidates \<noteq> []" and "quality \<in> set qualityIndex"
  shows "indexOf qualityIndex quality \<le> 3 \<and>
         0 \<le> imageIndexOf quality (length candidates) \<and>
         imageIndexOf quality (length candidates) < int (length candidates) \<and>
         elemAt candidates (imageIndexOf quality (length candidates)) =
           Some (candidates ! nat (imageIndexOf quality (length candidates)))"
proof -
  have n: "0 < length candidates" using assms(1) by simp
  have b: "0 \<le> imageIndexOf quality (length candidates) \<and>
           imageIndexOf quality (length candidates) < int (length candidates)"
    by (rule imageIndexOf_in_range [OF assms(2) n])
  then show ?thesis
    using qualityIndex_rank [OF assms(2)] by (simp add: elemAt_def)
qed

text \<open>Six candidates under the quality high: the index 5 is the last one.\<close>

theorem imageIndex_in_bounds_witness:
  "exampleResolutions @ [exampleSource] \<noteq> [] \<and> ''high'' \<in> set qualityIndex \<and>
   length (exampleResolutions @ [exampleSource]) = 6 \<and>
   imageIndexOf ''high'' 6 = 5 \<and>
   imageIndexOf ''high'' (length (exampleResolutions @ [exampleSource]))
     < int (length (exampleResolutions @ [exampleSource]))"
proof -
  have h1: "exampleResolutions @ [exampleSource] \<noteq> []" by simp
  have h2: "''high'' \<in> set qualityIndex" by (simp add: qualityIndex_def)
  have l: "length (exampleResolutions @ [exampleSource]) = 6"
    by (simp add: exampleResolutions_def)
  have v: "imageIndexOf ''high'' 6 = 5" by code_simp
  show ?thesis
    using h1 h2 l v imageIndex_in_bounds [OF h1 h2] by blast
qed

text \<open>
  Claim C10. For a post on which the callback of \<^verbatim>\<open>filter\<close> returned, the second
  call of \<^verbatim>\<open>getImageUrl\<close>, on the post as the first call left it, returns the same
  value and changes nothing more, so the \<^verbatim>\<open>src\<close> of the output record is the value
  the filter saw; a second call of \<^verbatim>\<open>getAllImages\<close> returns the same candidate list,
  which is the \<^verbatim>\<open>resolutions\<close> array the first call left.
\<close>

theorem second_call_same_url:
  assumes "keepPost cfg post = Inr (keep, post')"
  shows "\<exists>imageSrc.
           fst (getImageUrl cfg (preview post) (thumbnail post)) = Inr imageSrc \<and>
           getImageUrl cfg (preview post') (thumbnail post') = (Inr imageSrc, preview post') \<and>
           (\<forall>t. formatTitle engine cfg (title post') = Inr t \<longrightarrow>
              (\<exists>out. toOutput engine cfg post' = Inr out \<and> out_src out = imageSrc)) \<and>
           (\<forall>first c first'. getAllImages first = (Inr c, first') \<longrightarrow>
              getAllImages first' = (Inr c, first') \<and>
              length (resolutions first') = length c)"
proof -
  obtain g pv' where g: "getImageUrl cfg (preview post) (thumbnail post) = (g, pv')"
    by (cases "getImageUrl cfg (preview post) (thumbnail post)")
  with assms obtain imageSrc where i: "g = Inr imageSrc"
    by (cases g) (auto simp: keepPost_def Let_def)
  have p: "post' = post\<lparr>preview := pv'\<rparr>"
    using assms g i by (simp add: keepPost_def Let_def)
  have 1: "getImageUrl cfg (preview post') (thumbnail post') = (Inr imageSrc, preview post')"
    using getImageUrl_again [of cfg "preview post" "thumbnail post" imageSrc pv'] g i p
    by simp
  have 2: "\<forall>t. formatTitle engine cfg (title post') = Inr t \<longrightarrow>
              (\<exists>out. toOutput engine cfg post' = Inr out \<and> out_src out = imageSrc)"
    using 1 by (simp add: toOutput_def)
  have 3: "\<forall>first c first'. getAllImages first = (Inr c, first') \<longrightarrow>
              getAllImages first' = (Inr c, first') \<and>
              length (resolutions first') = length c"
    using getAllImages_again getAllImages_InrD by fastforce
  show ?thesis using g i 1 2 3 by auto
qed

text \<open>
  The example post: the filter keeps it, and the record built from the post as the
  filter left it carries the URL of the source.
\<close>

theorem second_call_same_url_witness:
  "keepPost exampleConfig examplePost =
     Inr (True, examplePost\<lparr>preview := Some (examplePreview\<lparr>images :=
            Some [exampleImageObj\<lparr>resolutions := exampleResolutions @ [exampleSource]\<rparr>]\<rparr>)\<rparr>) \<and>
   toOutput literalEngine exampleConfig
     (examplePost\<lparr>preview := Some (examplePreview\<lparr>images :=
            Some [exampleImageObj\<lparr>resolutions := exampleResolutions @ [exampleSource]\<rparr>]\<rparr>)\<rparr>) =
     Inr (OutputPost ''Hello World'' 42 (Some ''https://t.example/x.jpg'')
            (Some ''https://i.example/full.jpg'') 0 7 ''pics'' ''someone'') \<and>
   (\<exists>imageSrc.
      fst (getImageUrl exampleConfig (preview examplePost) (thumbnail examplePost)) = Inr imageSrc \<and>
      (\<exists>out. toOutput literalEngine exampleConfig
         (examplePost\<lparr>preview := Some (examplePreview\<lparr>images :=
            Some [exampleImageObj\<lparr>resolutions := exampleResolutions @ [exampleSource]\<rparr>]\<rparr>)\<rparr>) = Inr out \<and>
         out_src out = imageSrc))"
proof -
  let ?post' = "examplePost\<lparr>preview := Some (examplePreview\<lparr>images :=
            Some [exampleImageObj\<lparr>resolutions := exampleResolutions @ [exampleSource]\<rparr>]\<rparr>)\<rparr>"
  have h: "keepPost exampleConfig examplePost = Inr (True, ?post')"
    by code_simp
  have o: "toOutput literalEngine exampleConfig ?post' =
     Inr (OutputPost ''Hello World'' 42 (Some ''https://t.example/x.jpg'')
            (Some ''https://i.example/full.jpg'') 0 7 ''pics'' ''someone'')"
    by code_simp
  have f: "formatTitle literalEngine exampleConfig (title ?post') = Inr ''Hello World''"
    by code_simp
  from second_call_same_url [OF h, of literalEngine] obtain imageSrc where
    a: "fst (getImageUrl exampleConfig (preview examplePost) (thumbnail examplePost)) = Inr imageSrc"
    and b: "\<forall>t. formatTitle literalEngine exampleConfig (title ?post') = Inr t \<longrightarrow>
              (\<exists>out. toOutput literalEngine exampleConfig ?post' = Inr out \<and> out_src out = imageSrc)"
    by blast
  from b f have "\<exists>out. toOutput literalEngine exampleConfig ?post' = Inr out \<and> out_src out = imageSrc"
    by blast
  with a h o show ?thesis by blast
qed

end
